theory Spec2Isabelle
  imports Main
begin

section \<open>Data model of \<open>src/index.ts\<close>\<close>

text \<open>
  \<open>interface ServerActionState { success: boolean; message: string }\<close>.
  A value of this type is a JavaScript object, so a variable holds a reference to it and
  \<open>===\<close> compares references, not contents. The objects live in a store, a function
  from references to objects; the hook never writes to an object, so the store is a
  parameter of the model and two distinct references may well hold equal contents.
\<close>

record ServerActionState =
  success :: bool
  message :: string

type_synonym ref = nat

type_synonym heap = "ref \<Rightarrow> ServerActionState"

text \<open>The options \<open>successToast\<close> and \<open>errorToast\<close> have type \<open>boolean | string\<close>.\<close>

datatype toast_option = Flag bool | Literal string

text \<open>
  \<open>const router = useLoaderRouter ? useToploaderRouter() : useNextRouter()\<close>:
  the two navigation services the hook chooses between.
\<close>

datatype router = ToploaderRouter | NextRouter

text \<open>
  The bindings of the destructured options object (\<open>UseServerActionFormOptions\<close>), after
  the defaults of the parameter list have been applied. \<open>'cb\<close> is the type of the
  caller's callback functions; \<open>undefined\<close> is \<open>None\<close>. The schema and the action are
  used only by the form library and by \<open>useActionState\<close>; the default values live in
  the form.
\<close>

record 'cb options =
  initialState :: "ref option"
  useLoaderRouter :: bool
  resetOnSuccess :: bool
  redirectUrl :: "string option"
  successToast :: toast_option
  errorToast :: toast_option
  onSuccess :: "'cb option"
  onError :: "'cb option"

text \<open>
  The calls the hook makes into its collaborators, in the order it makes them:
  \<open>toast.success\<close>, \<open>toast.error\<close>, \<open>router.push\<close>, \<open>form.reset\<close>, a call of a
  caller's callback with a result, and \<open>formAction(data)\<close>.
\<close>

datatype ('v, 'cb) effect =
    ToastSuccess string
  | ToastError string
  | RouterPush router string
  | FormReset
  | Call 'cb ref
  | FormAction 'v

text \<open>
  The form instance of the form library: the current field values and the default values
  it was created with. \<open>form.reset()\<close> without argument puts the default values back.
\<close>

record 'v form_state =
  fieldValues :: 'v
  defaultValues :: 'v

text \<open>
  What one instance of the hook owns between renders: the two refs, the form, and the
  record of the calls made so far.
\<close>

record ('v, 'cb) hook =
  processedStateRef :: "ref option"
  isRedirectingRef :: bool
  form :: "'v form_state"
  trace :: "('v, 'cb) effect list"

text \<open>Reading a property of \<open>undefined\<close> raises a \<open>TypeError\<close> in JavaScript.\<close>

datatype error = TypeError

section \<open>JavaScript truthiness of the options\<close>

text \<open>\<open>if (successToast)\<close>: \<open>false\<close> and the empty string are falsy.\<close>

fun truthy_toast :: "toast_option \<Rightarrow> bool" where
  "truthy_toast (Flag b) = b"
| "truthy_toast (Literal s) = (s \<noteq> [])"

text \<open>\<open>typeof t === "string" ? t : state.message\<close>\<close>

fun toast_message :: "toast_option \<Rightarrow> string \<Rightarrow> string" where
  "toast_message (Literal s) m = s"
| "toast_message (Flag b) m = m"

text \<open>
  \<open>if (redirectUrl)\<close>: \<open>undefined\<close> and the empty string are falsy; the result is the
  target the branch navigates to, if it is taken.
\<close>

fun redirect_target :: "string option \<Rightarrow> string option" where
  "redirect_target None = None"
| "redirect_target (Some u) = (if u = [] then None else Some u)"

definition select_router :: "'cb options \<Rightarrow> router" where
  "select_router opts = (if useLoaderRouter opts then ToploaderRouter else NextRouter)"

section \<open>The effects of the hook\<close>

definition emit :: "('v, 'cb) effect \<Rightarrow> ('v, 'cb) hook \<Rightarrow> ('v, 'cb) hook" where
  "emit e h = h\<lparr>trace := trace h @ [e]\<rparr>"

definition form_reset :: "('v, 'cb) hook \<Rightarrow> ('v, 'cb) hook" where
  "form_reset h =
     emit FormReset (h\<lparr>form := (form h)\<lparr>fieldValues := defaultValues (form h)\<rparr>\<rparr>)"

text \<open>
  The branch \<open>if (state.success) { ... }\<close> of the first effect (lines 145 to 166), for
  the result at reference \<open>r\<close>. \<open>startTransition\<close> runs its callback at once, so
  \<open>router.push\<close> is called before the \<open>return\<close>.
\<close>

definition success_path ::
  "'cb options \<Rightarrow> heap \<Rightarrow> ref \<Rightarrow> ('v, 'cb) hook \<Rightarrow> ('v, 'cb) hook" where
  "success_path opts hp r h =
     (let h1 = (if truthy_toast (successToast opts)
                then emit (ToastSuccess (toast_message (successToast opts) (message (hp r)))) h
                else h)
      in case redirect_target (redirectUrl opts) of
           Some u \<Rightarrow> emit (RouterPush (select_router opts) u) (h1\<lparr>isRedirectingRef := True\<rparr>)
         | None \<Rightarrow>
             (let h2 = (if resetOnSuccess opts then form_reset h1 else h1)
              in case onSuccess opts of
                   None \<Rightarrow> h2
                 | Some cb \<Rightarrow> emit (Call cb r) h2))"

text \<open>The \<open>else\<close> branch (lines 167 to 177).\<close>

definition error_path ::
  "'cb options \<Rightarrow> heap \<Rightarrow> ref \<Rightarrow> ('v, 'cb) hook \<Rightarrow> ('v, 'cb) hook" where
  "error_path opts hp r h =
     (let h1 = (if truthy_toast (errorToast opts)
                then emit (ToastError (toast_message (errorToast opts) (message (hp r)))) h
                else h)
      in case onError opts of
           None \<Rightarrow> h1
         | Some cb \<Rightarrow> emit (Call cb r) h1)"

text \<open>
  The first \<open>useEffect\<close> (lines 131 to 192), the reconciliation routine, run with the
  \<open>state\<close> and \<open>pending\<close> of the render it belongs to. The guard returns early; then
  the result is stored in \<open>processedStateRef\<close>; then \<open>state.success\<close> is read, which
  raises if \<open>state\<close> is \<open>undefined\<close>.
\<close>

definition reconcile_effect ::
  "'cb options \<Rightarrow> heap \<Rightarrow> ref option \<Rightarrow> bool \<Rightarrow> ('v, 'cb) hook \<Rightarrow> error + ('v, 'cb) hook" where
  "reconcile_effect opts hp state pending h =
     (if state = None \<or> pending \<or> state = processedStateRef h \<or> isRedirectingRef h
      then Inr h
      else
        (let h1 = h\<lparr>processedStateRef := state\<rparr>
         in case state of
              None \<Rightarrow> Inl TypeError
            | Some r \<Rightarrow>
                if success (hp r) then Inr (success_path opts hp r h1)
                else Inr (error_path opts hp r h1)))"

text \<open>The second \<open>useEffect\<close> (lines 195 to 200).\<close>

definition pending_effect :: "bool \<Rightarrow> ('v, 'cb) hook \<Rightarrow> ('v, 'cb) hook" where
  "pending_effect pending h =
     (if pending then h\<lparr>processedStateRef := None, isRedirectingRef := False\<rparr> else h)"

text \<open>\<open>onSubmit\<close> (lines 123 to 129).\<close>

definition onSubmit :: "'v \<Rightarrow> ('v, 'cb) hook \<Rightarrow> ('v, 'cb) hook" where
  "onSubmit data h = emit (FormAction data) (h\<lparr>isRedirectingRef := False\<rparr>)"

section \<open>The life of one hook instance\<close>

text \<open>
  After a render is committed the effects run in the order they are declared. The
  dependency list of the first holds \<open>state\<close>, \<open>pending\<close> and the options, that of the
  second holds \<open>pending\<close>; both run after the first render and after every render
  in which \<open>pending\<close> has changed, which are the renders followed here.
\<close>

definition run_effects ::
  "'cb options \<Rightarrow> heap \<Rightarrow> ref option \<Rightarrow> bool \<Rightarrow> ('v, 'cb) hook \<Rightarrow> error + ('v, 'cb) hook" where
  "run_effects opts hp state pending h =
     (case reconcile_effect opts hp state pending h of
        Inl e \<Rightarrow> Inl e
      | Inr h' \<Rightarrow> Inr (pending_effect pending h'))"

text \<open>
  The first render: \<open>useRef(undefined)\<close>, \<open>useRef(false)\<close>, \<open>useForm\<close> with the
  default values, nothing called yet.
\<close>

definition initial_hook :: "'v \<Rightarrow> ('v, 'cb) hook" where
  "initial_hook dv =
     \<lparr>processedStateRef = None, isRedirectingRef = False,
      form = \<lparr>fieldValues = dv, defaultValues = dv\<rparr>, trace = []\<rparr>"

text \<open>
  \<open>useActionState(action, initialState)\<close> returns \<open>initialState\<close> as the state and
  \<open>false\<close> as \<open>pending\<close> in the first render.
\<close>

definition mount :: "'cb options \<Rightarrow> heap \<Rightarrow> 'v \<Rightarrow> error + ('v, 'cb) hook" where
  "mount opts hp dv = run_effects opts hp (initialState opts) False (initial_hook dv)"

text \<open>
  One submission: \<open>onSubmit\<close> dispatches the action, the component renders with
  \<open>pending = true\<close> and the state it had (\<open>prev\<close>), and when the action has resolved it
  renders with \<open>pending = false\<close> and the resolved value \<open>result\<close>.
\<close>

definition submission ::
  "'cb options \<Rightarrow> heap \<Rightarrow> ref option \<Rightarrow> 'v \<Rightarrow> ref option \<Rightarrow> ('v, 'cb) hook
     \<Rightarrow> error + ('v, 'cb) hook" where
  "submission opts hp prev data result h =
     (case run_effects opts hp prev True (onSubmit data h) of
        Inl e \<Rightarrow> Inl e
      | Inr h' \<Rightarrow> run_effects opts hp result False h')"

section \<open>The routine statement by statement\<close>

text \<open>
  The statements the first effect executes once the guard has let a result through, so
  that the order of the assignments to the refs and of the calls can be told apart: an
  assignment to \<open>processedStateRef.current\<close>, an assignment to
  \<open>isRedirectingRef.current\<close>, or a call of a collaborator or of a caller's callback.
\<close>

datatype ('v, 'cb) stmt =
    Assign_processed "ref option"
  | Assign_redirecting bool
  | Invoke "('v, 'cb) effect"

text \<open>What a call that returns leaves behind: \<open>form.reset()\<close> also restores the fields.\<close>

fun perform :: "('v, 'cb) effect \<Rightarrow> ('v, 'cb) hook \<Rightarrow> ('v, 'cb) hook" where
  "perform FormReset h = form_reset h"
| "perform e h = emit e h"

fun exec_stmt :: "('v, 'cb) stmt \<Rightarrow> ('v, 'cb) hook \<Rightarrow> ('v, 'cb) hook" where
  "exec_stmt (Assign_processed s) h = h\<lparr>processedStateRef := s\<rparr>"
| "exec_stmt (Assign_redirecting b) h = h\<lparr>isRedirectingRef := b\<rparr>"
| "exec_stmt (Invoke e) h = perform e h"

text \<open>
  Lines 143 to 177 in the order they are executed for the result at reference \<open>r\<close>:
  line 143 first, then the branch of \<open>state.success\<close>. The branches taken depend on the
  options and on the result only.
\<close>

definition reconcile_body :: "'cb options \<Rightarrow> heap \<Rightarrow> ref \<Rightarrow> ('v, 'cb) stmt list" where
  "reconcile_body opts hp r =
     Assign_processed (Some r) #
     (if success (hp r) then
        (if truthy_toast (successToast opts)
         then [Invoke (ToastSuccess (toast_message (successToast opts) (message (hp r))))]
         else [])
        @ (case redirect_target (redirectUrl opts) of
             Some u \<Rightarrow> [Assign_redirecting True, Invoke (RouterPush (select_router opts) u)]
           | None \<Rightarrow>
               (if resetOnSuccess opts then [Invoke FormReset] else [])
               @ (case onSuccess opts of None \<Rightarrow> [] | Some cb \<Rightarrow> [Invoke (Call cb r)]))
      else
        (if truthy_toast (errorToast opts)
         then [Invoke (ToastError (toast_message (errorToast opts) (message (hp r))))]
         else [])
        @ (case onError opts of None \<Rightarrow> [] | Some cb \<Rightarrow> [Invoke (Call cb r)]))"

text \<open>The hook state after each statement, in order.\<close>

fun intermediate :: "('v, 'cb) stmt list \<Rightarrow> ('v, 'cb) hook \<Rightarrow> ('v, 'cb) hook list" where
  "intermediate [] h = []"
| "intermediate (s # ss) h = exec_stmt s h # intermediate ss (exec_stmt s h)"

text \<open>
  The effect contains no \<open>try\<close>: when a call throws, the exception leaves the effect
  and the statements after the call are not executed. \<open>Escaped e h\<close> is the exception
  thrown by the call \<open>e\<close>, made in hook state \<open>h\<close>; \<open>Raised\<close> is an error of the
  routine's own.
\<close>

datatype ('v, 'cb) raised =
    Raised error
  | Escaped "('v, 'cb) effect" "('v, 'cb) hook"

text \<open>Running the statements when the calls satisfying \<open>throws\<close> throw.\<close>

fun run_stmts ::
  "(('v, 'cb) effect \<Rightarrow> bool) \<Rightarrow> ('v, 'cb) stmt list \<Rightarrow> ('v, 'cb) hook
     \<Rightarrow> ('v, 'cb) raised + ('v, 'cb) hook" where
  "run_stmts throws [] h = Inr h"
| "run_stmts throws (Invoke e # ss) h =
     (if throws e then Inl (Escaped e h) else run_stmts throws ss (perform e h))"
| "run_stmts throws (s # ss) h = run_stmts throws ss (exec_stmt s h)"

text \<open>The first effect with collaborators and callbacks that may throw.\<close>

definition reconcile_throwing ::
  "(('v, 'cb) effect \<Rightarrow> bool) \<Rightarrow> 'cb options \<Rightarrow> heap \<Rightarrow> ref option \<Rightarrow> bool \<Rightarrow> ('v, 'cb) hook
     \<Rightarrow> ('v, 'cb) raised + ('v, 'cb) hook" where
  "reconcile_throwing throws opts hp state pending h =
     (if state = None \<or> pending \<or> state = processedStateRef h \<or> isRedirectingRef h
      then Inr h
      else
        (case state of
           None \<Rightarrow> Inl (Raised TypeError)
         | Some r \<Rightarrow> run_stmts throws (reconcile_body opts hp r) h))"

section \<open>Reading the trace\<close>

text \<open>
  The calls made since the trace had length \<open>n\<close>, and the kinds of call: a
  notification, a callback call, a navigation, a form reset.
\<close>

definition since :: "nat \<Rightarrow> ('v, 'cb) hook \<Rightarrow> ('v, 'cb) effect list" where
  "since n h = drop n (trace h)"

fun is_toast :: "('v, 'cb) effect \<Rightarrow> bool" where
  "is_toast (ToastSuccess m) = True"
| "is_toast (ToastError m) = True"
| "is_toast e = False"

fun is_call :: "('v, 'cb) effect \<Rightarrow> bool" where
  "is_call (Call cb r) = True"
| "is_call e = False"

fun is_push :: "('v, 'cb) effect \<Rightarrow> bool" where
  "is_push (RouterPush rt u) = True"
| "is_push e = False"

fun is_reset :: "('v, 'cb) effect \<Rightarrow> bool" where
  "is_reset FormReset = True"
| "is_reset e = False"

section \<open>A concrete instance\<close>

text \<open>
  A store with a failed result at reference 3 and successful results elsewhere, so that
  the results at references 1 and 2 are distinct objects with equal contents. The
  options are the defaults of the hook, with both callbacks supplied.
\<close>

definition example_heap :: heap where
  "example_heap r =
     (if r = 3 then \<lparr>success = False, message = ''Duplicate''\<rparr>
      else \<lparr>success = True, message = ''Created''\<rparr>)"

definition example_options :: "nat options" where
  "example_options =
     \<lparr>initialState = None, useLoaderRouter = False, resetOnSuccess = True,
      redirectUrl = None, successToast = Flag True, errorToast = Flag True,
      onSuccess = Some 10, onError = Some 20\<rparr>"

definition example_hook :: "(string, nat) hook" where
  "example_hook = initial_hook ''draft''"

text \<open>A form the user has typed into, in a hook that has processed nothing yet.\<close>

definition typed_hook :: "(string, nat) hook" where
  "typed_hook =
     (initial_hook [])\<lparr>form := \<lparr>fieldValues = ''Buy milk'', defaultValues = []\<rparr>\<rparr>"

section \<open>Properties\<close>

subsection \<open>What one run of the reconciliation routine does\<close>

lemma reconcile_guard:
  "state = None \<or> pending \<or> state = processedStateRef h \<or> isRedirectingRef h
   \<Longrightarrow> reconcile_effect opts hp state pending h = Inr h"
  by (simp add: reconcile_effect_def)

lemma reconcile_pass:
  "state = Some r \<Longrightarrow> \<not> pending \<Longrightarrow> state \<noteq> processedStateRef h \<Longrightarrow> \<not> isRedirectingRef h
   \<Longrightarrow> reconcile_effect opts hp state pending h =
       Inr ((if success (hp r) then success_path opts hp r else error_path opts hp r)
              (h\<lparr>processedStateRef := Some r\<rparr>))"
  by (simp add: reconcile_effect_def)

lemma reconcile_total: "\<exists>h'. reconcile_effect opts hp state pending h = Inr h'"
  by (cases state) (simp_all add: reconcile_effect_def Let_def)

lemma success_path_redirect:
  "redirect_target (redirectUrl opts) = Some u \<Longrightarrow>
   success_path opts hp r h =
     h\<lparr>isRedirectingRef := True,
       trace := trace h
         @ (if truthy_toast (successToast opts)
            then [ToastSuccess (toast_message (successToast opts) (message (hp r)))] else [])
         @ [RouterPush (select_router opts) u]\<rparr>"
  by (simp add: success_path_def emit_def)

lemma success_path_stay:
  "redirect_target (redirectUrl opts) = None \<Longrightarrow>
   success_path opts hp r h =
     h\<lparr>form := (if resetOnSuccess opts then (form h)\<lparr>fieldValues := defaultValues (form h)\<rparr>
                 else form h),
       trace := trace h
         @ (if truthy_toast (successToast opts)
            then [ToastSuccess (toast_message (successToast opts) (message (hp r)))] else [])
         @ (if resetOnSuccess opts then [FormReset] else [])
         @ (case onSuccess opts of None \<Rightarrow> [] | Some cb \<Rightarrow> [Call cb r])\<rparr>"
  by (simp add: success_path_def emit_def form_reset_def split: option.split)

lemma error_path_eq:
  "error_path opts hp r h =
     h\<lparr>trace := trace h
         @ (if truthy_toast (errorToast opts)
            then [ToastError (toast_message (errorToast opts) (message (hp r)))] else [])
         @ (case onError opts of None \<Rightarrow> [] | Some cb \<Rightarrow> [Call cb r])\<rparr>"
  by (simp add: error_path_def emit_def split: option.split)

lemma processed_success_path [simp]:
  "processedStateRef (success_path opts hp r h) = processedStateRef h"
  by (cases "redirect_target (redirectUrl opts)")
     (simp_all add: success_path_redirect success_path_stay)

lemma processed_error_path [simp]:
  "processedStateRef (error_path opts hp r h) = processedStateRef h"
  by (simp add: error_path_eq)

lemma reconcile_pass_trace:
  assumes "state = Some r" "\<not> pending" "state \<noteq> processedStateRef h" "\<not> isRedirectingRef h"
  shows "\<exists>h' d. reconcile_effect opts hp state pending h = Inr h'
           \<and> processedStateRef h' = Some r \<and> trace h' = trace h @ d
           \<and> length (filter is_toast d) \<le> 1 \<and> length (filter is_push d) \<le> 1
           \<and> length (filter is_reset d) \<le> 1 \<and> length (filter is_call d) \<le> 1"
proof (cases "success (hp r)")
  case False
  then show ?thesis
    using assms by (simp add: reconcile_pass error_path_eq split: option.split)
next
  case True
  show ?thesis
  proof (cases "redirect_target (redirectUrl opts)")
    case None
    then show ?thesis
      using assms True by (simp add: reconcile_pass success_path_stay split: option.split)
  next
    case (Some u)
    then show ?thesis
      using assms True by (simp add: reconcile_pass success_path_redirect)
  qed
qed

subsection \<open>The effects after a render, and what the routine does not depend on\<close>

lemma run_effects_pending:
  "run_effects opts hp state True h
     = Inr (h\<lparr>processedStateRef := None, isRedirectingRef := False\<rparr>)"
  by (simp add: run_effects_def reconcile_guard pending_effect_def)

lemma run_effects_idle:
  "run_effects opts hp state False h = reconcile_effect opts hp state False h"
  using reconcile_total [of opts hp state False h]
  by (auto simp: run_effects_def pending_effect_def)

lemma paths_ignore_initialState:
  "success_path (opts\<lparr>initialState := s\<rparr>) hp r h = success_path opts hp r h"
  "error_path (opts\<lparr>initialState := s\<rparr>) hp r h = error_path opts hp r h"
  by (simp_all add: success_path_def error_path_def select_router_def Let_def
      split: option.split)

lemma reconcile_ignores_initialState:
  "reconcile_effect (opts\<lparr>initialState := s\<rparr>) hp state pending h
     = reconcile_effect opts hp state pending h"
  by (simp add: reconcile_effect_def paths_ignore_initialState Let_def split: option.split)

lemma submission_eq:
  "submission opts hp prev d result h =
     reconcile_effect opts hp result False
       (h\<lparr>processedStateRef := None, isRedirectingRef := False,
          trace := trace h @ [FormAction d]\<rparr>)"
  by (cases h)
     (simp add: submission_def run_effects_pending run_effects_idle onSubmit_def emit_def)

lemma reconcile_trace_frame:
  "reconcile_effect opts hp state pending h = Inr h' \<Longrightarrow>
   reconcile_effect opts hp state pending (h\<lparr>trace := t @ trace h\<rparr>)
     = Inr (h'\<lparr>trace := t @ trace h'\<rparr>)"
proof (cases "state = None \<or> pending \<or> state = processedStateRef h \<or> isRedirectingRef h")
  case True
  assume "reconcile_effect opts hp state pending h = Inr h'"
  with True show ?thesis
    by (simp add: reconcile_guard)
next
  case False
  assume run: "reconcile_effect opts hp state pending h = Inr h'"
  from False obtain r where r: "state = Some r" by auto
  show ?thesis
  proof (cases "redirect_target (redirectUrl opts)")
    case None
    with False r run show ?thesis
      by (cases h) (auto simp: reconcile_pass [where r = r] success_path_stay error_path_eq)
  next
    case (Some u)
    with False r run show ?thesis
      by (cases h)
         (auto simp: reconcile_pass [where r = r] success_path_redirect error_path_eq)
  qed
qed

lemma reconcile_fresh_delta:
  assumes "processedStateRef h \<noteq> Some r" "\<not> isRedirectingRef h"
    and "processedStateRef g \<noteq> Some r" "\<not> isRedirectingRef g"
  shows "\<exists>h' g' dl. reconcile_effect opts hp (Some r) False h = Inr h'
           \<and> reconcile_effect opts hp (Some r) False g = Inr g'
           \<and> processedStateRef h' = Some r
           \<and> trace h' = trace h @ dl \<and> trace g' = trace g @ dl"
proof -
  have h: "Some r \<noteq> processedStateRef h" and g: "Some r \<noteq> processedStateRef g"
    using assms by auto
  show ?thesis
  proof (cases "redirect_target (redirectUrl opts)")
    case None
    then show ?thesis
      using assms(2,4) h g
      by (simp add: reconcile_pass [where r = r] success_path_stay error_path_eq)
  next
    case (Some u)
    then show ?thesis
      using assms(2,4) h g
      by (simp add: reconcile_pass [where r = r] success_path_redirect error_path_eq)
  qed
qed

lemma empty_string_equalities:
  "successToast opts = Literal [] \<Longrightarrow>
     reconcile_effect (opts\<lparr>successToast := Flag False\<rparr>) hp state pending h
       = reconcile_effect opts hp state pending h"
  "errorToast opts = Literal [] \<Longrightarrow>
     reconcile_effect (opts\<lparr>errorToast := Flag False\<rparr>) hp state pending h
       = reconcile_effect opts hp state pending h"
  "redirectUrl opts = Some [] \<Longrightarrow>
     reconcile_effect (opts\<lparr>redirectUrl := None\<rparr>) hp state pending h
       = reconcile_effect opts hp state pending h"
  by (simp_all add: reconcile_effect_def success_path_def error_path_def select_router_def
      Let_def split: option.split)

lemma empty_string_calls:
  assumes "reconcile_effect opts hp state pending h = Inr h'"
  shows "successToast opts = Literal [] \<Longrightarrow> ToastSuccess m \<notin> set (since (length (trace h)) h')"
    and "errorToast opts = Literal [] \<Longrightarrow> ToastError m \<notin> set (since (length (trace h)) h')"
    and "redirectUrl opts = Some [] \<Longrightarrow>
           filter is_push (since (length (trace h)) h') = []
           \<and> isRedirectingRef h' = isRedirectingRef h"
proof -
  show "redirectUrl opts = Some [] \<Longrightarrow>
           filter is_push (since (length (trace h)) h') = []
           \<and> isRedirectingRef h' = isRedirectingRef h"
  proof (cases "state = None \<or> pending \<or> state = processedStateRef h \<or> isRedirectingRef h")
    case True
    assume "redirectUrl opts = Some []"
    from True assms show ?thesis by (auto simp: reconcile_guard since_def)
  next
    case False
    assume "redirectUrl opts = Some []"
    then have t: "redirect_target (redirectUrl opts) = None" by simp
    from False obtain r where "state = Some r" by auto
    with False assms show ?thesis
      by (auto simp: reconcile_pass [where r = r] success_path_stay [OF t] error_path_eq
          since_def split: option.splits if_splits)
  qed
  have toast: "set (since (length (trace h)) h') \<subseteq>
     (if truthy_toast (successToast opts) then {ToastSuccess (toast_message (successToast opts) m') | m'. True} else {})
     \<union> (if truthy_toast (errorToast opts) then {ToastError (toast_message (errorToast opts) m') | m'. True} else {})
     \<union> {e. \<not> is_toast e}"
  proof (cases "state = None \<or> pending \<or> state = processedStateRef h \<or> isRedirectingRef h")
    case True
    with assms show ?thesis by (auto simp: reconcile_guard since_def)
  next
    case False
    from False obtain r where r: "state = Some r" by auto
    show ?thesis
    proof (cases "redirect_target (redirectUrl opts)")
      case None
      with False r assms show ?thesis
        by (auto simp: reconcile_pass [where r = r] success_path_stay error_path_eq
            since_def split: option.splits if_splits)
    next
      case (Some u)
      with False r assms show ?thesis
        by (auto simp: reconcile_pass [where r = r] success_path_redirect error_path_eq
            since_def split: option.splits if_splits)
    qed
  qed
  show "successToast opts = Literal [] \<Longrightarrow> ToastSuccess m \<notin> set (since (length (trace h)) h')"
    using toast by (auto split: if_splits)
  show "errorToast opts = Literal [] \<Longrightarrow> ToastError m \<notin> set (since (length (trace h)) h')"
    using toast by (auto split: if_splits)
qed

subsection \<open>The statements of the routine, and calls that throw\<close>

lemma fold_reconcile_body:
  "fold exec_stmt (reconcile_body opts hp r) h =
     (if success (hp r) then success_path opts hp r else error_path opts hp r)
       (h\<lparr>processedStateRef := Some r\<rparr>)"
  by (simp add: reconcile_body_def success_path_def error_path_def Let_def
      split: option.split)

lemma reconcile_effect_body:
  "Some r \<noteq> processedStateRef h \<Longrightarrow> \<not> isRedirectingRef h \<Longrightarrow>
   reconcile_effect opts hp (Some r) False h = Inr (fold exec_stmt (reconcile_body opts hp r) h)"
  by (simp add: reconcile_pass [where r = r] fold_reconcile_body)

lemma run_stmts_returns:
  "(\<And>e. Invoke e \<in> set ss \<Longrightarrow> \<not> throws e) \<Longrightarrow>
   run_stmts throws ss h = Inr (fold exec_stmt ss h)"
proof (induction ss arbitrary: h)
  case Nil
  show ?case by simp
next
  case (Cons s ss)
  then show ?case by (cases s) simp_all
qed

lemma run_stmts_escaped:
  "run_stmts throws ss h = Inl x \<Longrightarrow>
   \<exists>e h0. x = Escaped e h0 \<and> throws e \<and> Invoke e \<in> set ss
           \<and> h0 \<in> set (h # intermediate ss h)"
proof (induction ss arbitrary: h)
  case Nil
  then show ?case by simp
next
  case (Cons s ss)
  show ?case
  proof (cases s)
    case (Invoke e)
    show ?thesis
    proof (cases "throws e")
      case True
      with Cons.prems Invoke show ?thesis by auto
    next
      case False
      with Cons.prems Invoke have "run_stmts throws ss (perform e h) = Inl x" by simp
      from Cons.IH [OF this] Invoke show ?thesis by auto
    qed
  next
    case (Assign_processed s')
    with Cons.prems have "run_stmts throws ss (exec_stmt s h) = Inl x" by simp
    from Cons.IH [OF this] show ?thesis by auto
  next
    case (Assign_redirecting b)
    with Cons.prems have "run_stmts throws ss (exec_stmt s h) = Inl x" by simp
    from Cons.IH [OF this] show ?thesis by auto
  qed
qed

lemma processed_perform [simp]: "processedStateRef (perform e h) = processedStateRef h"
  by (cases e) (simp_all add: emit_def form_reset_def)

lemma intermediate_marked:
  "processedStateRef h = Some r \<Longrightarrow> \<forall>s' \<in> set ss. \<forall>x. s' \<noteq> Assign_processed x \<Longrightarrow>
   s \<in> set (intermediate ss h) \<Longrightarrow> processedStateRef s = Some r"
proof (induction ss arbitrary: h)
  case Nil
  then show ?case by simp
next
  case (Cons a ss)
  have keep: "processedStateRef (exec_stmt a h) = Some r"
    using Cons.prems(1,2) by (cases a) auto
  from Cons.prems(3) consider "s = exec_stmt a h" | "s \<in> set (intermediate ss (exec_stmt a h))"
    by auto
  then show ?case
  proof cases
    case 1
    with keep show ?thesis by simp
  next
    case 2
    from Cons.IH [OF keep _ 2] Cons.prems(2) show ?thesis by simp
  qed
qed

lemma reconcile_body_marks_first:
  "\<exists>rest. reconcile_body opts hp r = Assign_processed (Some r) # rest
     \<and> (\<forall>s' \<in> set rest. \<forall>x. s' \<noteq> Assign_processed x)"
  by (auto simp: reconcile_body_def split: option.splits)

lemma intermediate_body_marked:
  assumes "s \<in> set (intermediate (reconcile_body opts hp r) (h :: ('v, 'cb) hook))"
  shows "processedStateRef s = Some r"
proof -
  obtain rest :: "('v, 'cb) stmt list"
    where b: "reconcile_body opts hp r = Assign_processed (Some r) # rest"
    and nr: "\<forall>s' \<in> set rest. \<forall>x. s' \<noteq> Assign_processed x"
    using reconcile_body_marks_first by blast
  let ?m = "h\<lparr>processedStateRef := Some r\<rparr>"
  from assms b consider "s = ?m" | "s \<in> set (intermediate rest ?m)" by auto
  then show ?thesis
  proof cases
    case 1
    then show ?thesis by simp
  next
    case 2
    have "processedStateRef ?m = Some r" by simp
    from intermediate_marked [OF this nr 2] show ?thesis .
  qed
qed

lemma reconcile_throwing_pass:
  "Some r \<noteq> processedStateRef h \<Longrightarrow> \<not> isRedirectingRef h \<Longrightarrow>
   reconcile_throwing throws opts hp (Some r) False h
     = run_stmts throws (reconcile_body opts hp r) h"
  by (simp add: reconcile_throwing_def)

lemma reconcile_throwing_guard:
  "state = None \<or> pending \<or> state = processedStateRef h \<or> isRedirectingRef h
   \<Longrightarrow> reconcile_throwing throws opts hp state pending h = Inr h"
  by (simp add: reconcile_throwing_def)


lemma reconcile_throwing_escaped_marked:
  assumes "Some r \<noteq> processedStateRef h" "\<not> isRedirectingRef h"
    and "reconcile_throwing throws opts hp (Some r) False (h :: ('v, 'cb) hook) = Inl (Escaped e h0)"
  shows "h0 \<in> set (intermediate (reconcile_body opts hp r) h)"
proof -
  obtain rest :: "('v, 'cb) stmt list"
    where b: "reconcile_body opts hp r = Assign_processed (Some r) # rest"
    using reconcile_body_marks_first by blast
  from assms b have "run_stmts throws rest (h\<lparr>processedStateRef := Some r\<rparr>) = Inl (Escaped e h0)"
    by (simp add: reconcile_throwing_pass)
  from run_stmts_escaped [OF this] b show ?thesis by auto
qed

lemma reconcile_throwing_returning:
  "\<exists>h'. reconcile_effect opts hp state pending h = Inr h'
     \<and> reconcile_throwing (\<lambda>e. False) opts hp state pending h = Inr h'"
proof (cases "state = None \<or> pending \<or> state = processedStateRef h \<or> isRedirectingRef h")
  case True
  then show ?thesis
    by (simp add: reconcile_guard reconcile_throwing_guard)
next
  case False
  then obtain r where "state = Some r" by auto
  with False show ?thesis
    by (simp add: reconcile_effect_body reconcile_throwing_def run_stmts_returns)
qed




subsection \<open>The guard\<close>

text \<open>
  C5. The reconciliation routine calls nothing and changes nothing when there is no
  result, when a submission is pending, when the current result is the very object
  recorded in \<open>processedStateRef\<close>, or when \<open>isRedirectingRef\<close> is set. In
  particular, with \<open>pending = true\<close> it does nothing whatever the current result is.
\<close>

theorem guard_blocks_reconciliation:
  "(state = None \<or> pending \<or> state = processedStateRef h \<or> isRedirectingRef h
      \<longrightarrow> reconcile_effect opts hp state pending h = Inr h)
   \<and> reconcile_effect opts hp state True h = Inr h"
  by (simp add: reconcile_guard)

theorem guard_blocks_reconciliation_witness:
  "reconcile_effect example_options example_heap (Some 1) False
      (example_hook\<lparr>processedStateRef := Some 1\<rparr>)
     = Inr (example_hook\<lparr>processedStateRef := Some 1\<rparr>)
   \<and> reconcile_effect example_options example_heap (Some 1) True example_hook
     = Inr example_hook"
  using guard_blocks_reconciliation
    [of "Some 1" False "example_hook\<lparr>processedStateRef := Some 1\<rparr>"
        example_options example_heap]
    guard_blocks_reconciliation
    [of "Some 1" False example_hook example_options example_heap]
  by simp


subsection \<open>Idempotence\<close>

text \<open>
  C1. Running the routine twice in a row for the same result \<open>r\<close> with
  \<open>pending = false\<close>: both runs return, and the second returns the state of the first
  unchanged. When the first run passes the guard, the calls of the two runs together are
  exactly: on success the notification if enabled, then either the navigation to the
  redirect target, or the form reset if \<open>resetOnSuccess\<close> and \<open>onSuccess\<close> with
  \<open>r\<close> if supplied; on failure the notification if enabled, then \<open>onError\<close> with
  \<open>r\<close> if supplied; each of them once. The reason: the first statement executed is
  the assignment of \<open>r\<close> to \<open>processedStateRef\<close>, so in the state after every
  statement \<open>r\<close> is recorded and a re-evaluation there is rejected by the guard; and
  if a call throws, \<open>r\<close> is recorded already in the state the exception leaves behind,
  where the routine does nothing any more.
\<close>

theorem reconcile_twice_effects_once:
  "\<exists>h1. reconcile_effect opts hp (Some r) False h = Inr h1
     \<and> reconcile_effect opts hp (Some r) False h1 = Inr h1
     \<and> (Some r \<noteq> processedStateRef h \<and> \<not> isRedirectingRef h \<longrightarrow>
          trace h1 = trace h
            @ (if success (hp r) then
                 (if truthy_toast (successToast opts)
                  then [ToastSuccess (toast_message (successToast opts) (message (hp r)))]
                  else [])
                 @ (case redirect_target (redirectUrl opts) of
                      Some u \<Rightarrow> [RouterPush (select_router opts) u]
                    | None \<Rightarrow>
                        (if resetOnSuccess opts then [FormReset] else [])
                        @ (case onSuccess opts of None \<Rightarrow> [] | Some cb \<Rightarrow> [Call cb r]))
               else
                 (if truthy_toast (errorToast opts)
                  then [ToastError (toast_message (errorToast opts) (message (hp r)))]
                  else [])
                 @ (case onError opts of None \<Rightarrow> [] | Some cb \<Rightarrow> [Call cb r]))
        \<and> distinct (since (length (trace h)) h1)
        \<and> h1 = fold exec_stmt (reconcile_body opts hp r) h
        \<and> hd (intermediate (reconcile_body opts hp r) h) = h\<lparr>processedStateRef := Some r\<rparr>
        \<and> (\<forall>s \<in> set (intermediate (reconcile_body opts hp r) h).
              processedStateRef s = Some r
              \<and> reconcile_effect opts hp (Some r) False s = Inr s)
        \<and> (\<forall>throws e h0.
              reconcile_throwing throws opts hp (Some r) False h = Inl (Escaped e h0) \<longrightarrow>
                processedStateRef h0 = Some r
                \<and> reconcile_throwing throws opts hp (Some r) False h0 = Inr h0))"
proof (cases "Some r = processedStateRef h \<or> isRedirectingRef h")
  case True
  then show ?thesis
    by (intro exI [of _ h]) (auto simp: reconcile_guard)
next
  case False
  let ?h1 = "fold exec_stmt (reconcile_body opts hp r) h"
  from False have fresh: "Some r \<noteq> processedStateRef h" "\<not> isRedirectingRef h" by auto
  have run: "reconcile_effect opts hp (Some r) False h = Inr ?h1"
    using fresh by (rule reconcile_effect_body)
  have marked: "processedStateRef ?h1 = Some r"
    by (simp add: fold_reconcile_body)
  have again: "reconcile_effect opts hp (Some r) False ?h1 = Inr ?h1"
    using marked by (simp add: reconcile_guard)
  have tr: "trace ?h1 = trace h
            @ (if success (hp r) then
                 (if truthy_toast (successToast opts)
                  then [ToastSuccess (toast_message (successToast opts) (message (hp r)))]
                  else [])
                 @ (case redirect_target (redirectUrl opts) of
                      Some u \<Rightarrow> [RouterPush (select_router opts) u]
                    | None \<Rightarrow>
                        (if resetOnSuccess opts then [FormReset] else [])
                        @ (case onSuccess opts of None \<Rightarrow> [] | Some cb \<Rightarrow> [Call cb r]))
               else
                 (if truthy_toast (errorToast opts)
                  then [ToastError (toast_message (errorToast opts) (message (hp r)))]
                  else [])
                 @ (case onError opts of None \<Rightarrow> [] | Some cb \<Rightarrow> [Call cb r]))"
  proof (cases "redirect_target (redirectUrl opts)")
    case None
    then show ?thesis
      by (simp add: fold_reconcile_body success_path_stay error_path_eq)
  next
    case (Some u)
    then show ?thesis
      by (simp add: fold_reconcile_body success_path_redirect error_path_eq)
  qed
  have dist: "distinct (since (length (trace h)) ?h1)"
    unfolding since_def tr by (simp split: option.split)
  have first: "hd (intermediate (reconcile_body opts hp r) h) = h\<lparr>processedStateRef := Some r\<rparr>"
    by (simp add: reconcile_body_def)
  have inter: "processedStateRef s = Some r \<and> reconcile_effect opts hp (Some r) False s = Inr s"
    if "s \<in> set (intermediate (reconcile_body opts hp r) h)" for s
    using intermediate_body_marked [OF that] by (simp add: reconcile_guard)
  have esc: "processedStateRef h0 = Some r
             \<and> reconcile_throwing throws opts hp (Some r) False h0 = Inr h0"
    if "reconcile_throwing throws opts hp (Some r) False h = Inl (Escaped e h0)"
    for throws e h0
    using intermediate_body_marked [OF reconcile_throwing_escaped_marked [OF fresh that]]
    by (simp add: reconcile_throwing_guard)
  show ?thesis
    using run again tr dist first inter esc
    by (intro exI [of _ ?h1]) blast
qed

theorem reconcile_twice_effects_once_witness:
  "Some 1 \<noteq> processedStateRef example_hook \<and> \<not> isRedirectingRef example_hook
   \<and> (\<exists>h1. reconcile_effect example_options example_heap (Some 1) False example_hook = Inr h1
      \<and> reconcile_effect example_options example_heap (Some 1) False h1 = Inr h1
      \<and> trace h1 = [ToastSuccess ''Created'', FormReset, Call 10 1]
      \<and> hd (intermediate (reconcile_body example_options example_heap 1) example_hook)
          = example_hook\<lparr>processedStateRef := Some 1\<rparr>)"
proof -
  have pre: "Some 1 \<noteq> processedStateRef example_hook" "\<not> isRedirectingRef example_hook"
    by (simp_all add: example_hook_def initial_hook_def)
  have vals: "success (example_heap 1)" "truthy_toast (successToast example_options)"
    "toast_message (successToast example_options) (message (example_heap 1)) = ''Created''"
    "redirect_target (redirectUrl example_options) = None"
    "resetOnSuccess example_options"
    "onSuccess example_options = Some 10" "trace example_hook = []"
    by (simp_all add: example_hook_def initial_hook_def example_heap_def example_options_def)
  show ?thesis
    using pre vals reconcile_twice_effects_once
      [where r = 1 and h = example_hook and hp = example_heap and opts = example_options]
    by auto
qed

subsection \<open>The success branch\<close>

text \<open>
  C2. For a result \<open>r\<close> with \<open>success = true\<close> that passes the guard, with no
  redirect target (\<open>redirectUrl\<close> undefined or empty) and \<open>resetOnSuccess = true\<close>:
  the routine returns, the form holds its default values, and the calls made are the
  success notification (if enabled), then \<open>form.reset\<close>, then \<open>onSuccess\<close> with
  \<open>r\<close> if the callback was supplied; \<open>onSuccess\<close> is called exactly once, after the
  reset.
\<close>

theorem success_without_redirect_resets_then_calls_back:
  assumes "Some r \<noteq> processedStateRef h" and "\<not> isRedirectingRef h"
    and "success (hp r)"
    and "redirect_target (redirectUrl opts) = None"
    and "resetOnSuccess opts"
  shows "\<exists>h'. reconcile_effect opts hp (Some r) False h = Inr h'
      \<and> fieldValues (form h') = defaultValues (form h)
      \<and> defaultValues (form h') = defaultValues (form h)
      \<and> trace h' = trace h
           @ (if truthy_toast (successToast opts)
              then [ToastSuccess (toast_message (successToast opts) (message (hp r)))] else [])
           @ [FormReset]
           @ (case onSuccess opts of None \<Rightarrow> [] | Some cb \<Rightarrow> [Call cb r])
      \<and> filter is_call (since (length (trace h)) h')
           = (case onSuccess opts of None \<Rightarrow> [] | Some cb \<Rightarrow> [Call cb r])"
  using assms
  by (simp add: reconcile_pass success_path_stay since_def split: option.split)

theorem success_without_redirect_resets_then_calls_back_witness:
  "Some 1 \<noteq> processedStateRef typed_hook \<and> \<not> isRedirectingRef typed_hook
   \<and> success (example_heap 1) \<and> redirect_target (redirectUrl example_options) = None
   \<and> resetOnSuccess example_options
   \<and> (\<exists>h'. reconcile_effect example_options example_heap (Some 1) False typed_hook = Inr h'
        \<and> fieldValues (form h') = '''' 
        \<and> trace h' = [ToastSuccess ''Created'', FormReset, Call 10 1])"
proof -
  have pre: "Some 1 \<noteq> processedStateRef typed_hook" "\<not> isRedirectingRef typed_hook"
    "success (example_heap 1)" "redirect_target (redirectUrl example_options) = None"
    "resetOnSuccess example_options"
    by (simp_all add: typed_hook_def initial_hook_def example_heap_def example_options_def)
  have vals: "truthy_toast (successToast example_options)"
    "toast_message (successToast example_options) (message (example_heap 1)) = ''Created''"
    "onSuccess example_options = Some 10"
    "defaultValues (form typed_hook) = []" "trace typed_hook = []"
    by (simp_all add: typed_hook_def initial_hook_def example_heap_def example_options_def)
  show ?thesis
    using pre vals success_without_redirect_resets_then_calls_back
      [where r = 1 and h = typed_hook and hp = example_heap and opts = example_options]
    by auto
qed

text \<open>
  C3. For a result \<open>r\<close> with \<open>success = true\<close> that passes the guard, with a
  non-empty redirect target \<open>u\<close>: \<open>router.push\<close> is called exactly once, with
  \<open>u\<close>; \<open>isRedirectingRef\<close> is set; no callback is called and the form is neither
  reset nor changed, whatever \<open>resetOnSuccess\<close> is.
\<close>

theorem success_with_redirect_navigates_and_stops:
  assumes "Some r \<noteq> processedStateRef h" and "\<not> isRedirectingRef h"
    and "success (hp r)"
    and "redirectUrl opts = Some u" and "u \<noteq> []"
  shows "\<exists>h'. reconcile_effect opts hp (Some r) False h = Inr h'
      \<and> isRedirectingRef h' \<and> form h' = form h
      \<and> take (length (trace h)) (trace h') = trace h
      \<and> filter is_push (since (length (trace h)) h') = [RouterPush (select_router opts) u]
      \<and> filter is_call (since (length (trace h)) h') = []
      \<and> filter is_reset (since (length (trace h)) h') = []"
proof -
  from assms(4,5) have "redirect_target (redirectUrl opts) = Some u" by simp
  with assms(1-3) show ?thesis
    by (simp add: reconcile_pass success_path_redirect since_def)
qed

theorem success_with_redirect_navigates_and_stops_witness:
  "\<exists>h'. reconcile_effect (example_options\<lparr>redirectUrl := Some ''/list''\<rparr>) example_heap
           (Some 1) False typed_hook = Inr h'
      \<and> isRedirectingRef h' \<and> form h' = form typed_hook
      \<and> trace h' = [ToastSuccess ''Created'', RouterPush NextRouter ''/list'']"
proof -
  have pre: "Some 1 \<noteq> processedStateRef typed_hook" "\<not> isRedirectingRef typed_hook"
    "success (example_heap 1)"
    "redirectUrl (example_options\<lparr>redirectUrl := Some ''/list''\<rparr>) = Some ''/list''"
    "''/list'' \<noteq> []"
    by (simp_all add: typed_hook_def initial_hook_def example_heap_def)
  have "\<exists>h'. reconcile_effect (example_options\<lparr>redirectUrl := Some ''/list''\<rparr>) example_heap
           (Some 1) False typed_hook = Inr h'
      \<and> trace h' = [ToastSuccess ''Created'', RouterPush NextRouter ''/list'']"
    by (simp add: reconcile_effect_def success_path_def emit_def select_router_def
        typed_hook_def initial_hook_def example_heap_def example_options_def)
  with pre success_with_redirect_navigates_and_stops
    [where r = 1 and h = typed_hook and hp = example_heap and u = "''/list''"
       and opts = "example_options\<lparr>redirectUrl := Some ''/list''\<rparr>"]
  show ?thesis by auto
qed

subsection \<open>The failure branch\<close>




subsection \<open>Notifications\<close>

text \<open>
  C7. For a successful result that passes the guard, with the success notification
  enabled and a redirect target \<open>u\<close>: the calls made are \<open>toast.success\<close> and then
  \<open>router.push\<close>, in this order; the redirect does not suppress the notification.
\<close>

theorem notification_precedes_redirect:
  assumes "Some r \<noteq> processedStateRef h" and "\<not> isRedirectingRef h"
    and "success (hp r)"
    and "truthy_toast (successToast opts)"
    and "redirect_target (redirectUrl opts) = Some u"
  shows "\<exists>h'. reconcile_effect opts hp (Some r) False h = Inr h'
      \<and> trace h' = trace h
           @ [ToastSuccess (toast_message (successToast opts) (message (hp r))),
              RouterPush (select_router opts) u]"
  using assms by (simp add: reconcile_pass success_path_redirect)

theorem notification_precedes_redirect_witness:
  "\<exists>h'. reconcile_effect
           (example_options\<lparr>useLoaderRouter := True, redirectUrl := Some ''/todos'',
              successToast := Literal ''Saved''\<rparr>)
           example_heap (Some 2) False typed_hook = Inr h'
      \<and> trace h' = [ToastSuccess ''Saved'', RouterPush ToploaderRouter ''/todos'']"
proof -
  let ?opts = "example_options\<lparr>useLoaderRouter := True, redirectUrl := Some ''/todos'',
              successToast := Literal ''Saved''\<rparr>"
  have pre: "Some 2 \<noteq> processedStateRef typed_hook" "\<not> isRedirectingRef typed_hook"
    "success (example_heap 2)" "truthy_toast (successToast ?opts)"
    "redirect_target (redirectUrl ?opts) = Some ''/todos''"
    by (simp_all add: typed_hook_def initial_hook_def example_heap_def)
  have vals: "toast_message (successToast ?opts) (message (example_heap 2)) = ''Saved''"
    "select_router ?opts = ToploaderRouter" "trace typed_hook = []"
    by (simp_all add: typed_hook_def initial_hook_def select_router_def)
  show ?thesis
    using pre vals notification_precedes_redirect
      [where r = 2 and h = typed_hook and hp = example_heap and opts = ?opts
         and u = "''/todos''"]
    by auto
qed

text \<open>
  C8. For a result that passes the guard, the notifications displayed are: on success,
  the literal string if \<open>successToast\<close> is a (non-empty) string, \<open>result.message\<close> if
  it is \<open>true\<close>, none otherwise; on failure the same with \<open>errorToast\<close>.
\<close>

theorem notification_message_selection:
  assumes "Some r \<noteq> processedStateRef h" and "\<not> isRedirectingRef h"
  shows "\<exists>h'. reconcile_effect opts hp (Some r) False h = Inr h'
      \<and> filter is_toast (since (length (trace h)) h') =
          (if success (hp r) then
             (case successToast opts of
                Literal s \<Rightarrow> if s = [] then [] else [ToastSuccess s]
              | Flag b \<Rightarrow> if b then [ToastSuccess (message (hp r))] else [])
           else
             (case errorToast opts of
                Literal s \<Rightarrow> if s = [] then [] else [ToastError s]
              | Flag b \<Rightarrow> if b then [ToastError (message (hp r))] else []))"
proof (cases "success (hp r)")
  case False
  with assms show ?thesis
    by (simp add: reconcile_pass error_path_eq since_def
        split: option.split toast_option.split)
next
  case True
  show ?thesis
  proof (cases "redirect_target (redirectUrl opts)")
    case None
    with assms True show ?thesis
      by (simp add: reconcile_pass success_path_stay since_def
          split: option.split toast_option.split)
  next
    case (Some u)
    with assms True show ?thesis
      by (simp add: reconcile_pass success_path_redirect since_def
          split: toast_option.split)
  qed
qed

theorem notification_message_selection_witness:
  "(\<exists>h'. reconcile_effect (example_options\<lparr>errorToast := Literal ''Try again''\<rparr>)
            example_heap (Some 3) False typed_hook = Inr h'
        \<and> filter is_toast (since 0 h') = [ToastError ''Try again''])
   \<and> (\<exists>h'. reconcile_effect example_options example_heap (Some 3) False typed_hook = Inr h'
        \<and> filter is_toast (since 0 h') = [ToastError ''Duplicate''])"
proof -
  have pre: "Some 3 \<noteq> processedStateRef typed_hook" "\<not> isRedirectingRef typed_hook"
    by (simp_all add: typed_hook_def initial_hook_def)
  have vals: "\<not> success (example_heap 3)" "message (example_heap 3) = ''Duplicate''"
    "errorToast example_options = Flag True" "trace typed_hook = []"
    by (simp_all add: typed_hook_def initial_hook_def example_heap_def example_options_def)
  show ?thesis
    using pre vals
      notification_message_selection
        [where r = 3 and h = typed_hook and hp = example_heap
           and opts = "example_options\<lparr>errorToast := Literal ''Try again''\<rparr>"]
      notification_message_selection
        [where r = 3 and h = typed_hook and hp = example_heap and opts = example_options]
    by auto
qed

text \<open>
  C10. The routine returns, and: with \<open>successToast = ""\<close> it behaves as with
  \<open>successToast = false\<close> and makes no \<open>toast.success\<close> call; with
  \<open>errorToast = ""\<close> it behaves as with \<open>errorToast = false\<close> and makes no
  \<open>toast.error\<close> call; with \<open>redirectUrl = ""\<close> it behaves as with no redirect
  target, makes no \<open>router.push\<close> call and leaves \<open>isRedirectingRef\<close> as it was.
\<close>

theorem empty_string_option_is_off:
  "\<exists>h'. reconcile_effect opts hp state pending h = Inr h'
     \<and> (successToast opts = Literal [] \<longrightarrow>
          reconcile_effect (opts\<lparr>successToast := Flag False\<rparr>) hp state pending h = Inr h'
          \<and> (\<forall>m. ToastSuccess m \<notin> set (since (length (trace h)) h')))
     \<and> (errorToast opts = Literal [] \<longrightarrow>
          reconcile_effect (opts\<lparr>errorToast := Flag False\<rparr>) hp state pending h = Inr h'
          \<and> (\<forall>m. ToastError m \<notin> set (since (length (trace h)) h')))
     \<and> (redirectUrl opts = Some [] \<longrightarrow>
          reconcile_effect (opts\<lparr>redirectUrl := None\<rparr>) hp state pending h = Inr h'
          \<and> filter is_push (since (length (trace h)) h') = []
          \<and> isRedirectingRef h' = isRedirectingRef h)"
proof -
  obtain h' where run: "reconcile_effect opts hp state pending h = Inr h'"
    using reconcile_total by blast
  show ?thesis
    using run empty_string_calls [OF run]
    by (intro exI [of _ h']) (simp add: empty_string_equalities)
qed

theorem empty_string_option_is_off_witness:
  "\<exists>h'. reconcile_effect
           (example_options\<lparr>redirectUrl := Some [], successToast := Literal []\<rparr>)
           example_heap (Some 1) False typed_hook = Inr h'
      \<and> trace h' = [FormReset, Call 10 1]
      \<and> (\<forall>m. ToastSuccess m \<notin> set (since (length (trace typed_hook)) h'))
      \<and> filter is_push (since (length (trace typed_hook)) h') = []
      \<and> \<not> isRedirectingRef h'"
proof -
  let ?opts = "example_options\<lparr>redirectUrl := Some [], successToast := Literal []\<rparr>"
  have run: "\<exists>h'. reconcile_effect ?opts example_heap (Some 1) False typed_hook = Inr h'
      \<and> trace h' = [FormReset, Call 10 1]"
    by (simp add: reconcile_effect_def success_path_def form_reset_def emit_def
        typed_hook_def initial_hook_def example_heap_def example_options_def)
  have pre: "successToast ?opts = Literal []" "redirectUrl ?opts = Some []"
    "\<not> isRedirectingRef typed_hook"
    by (simp_all add: typed_hook_def initial_hook_def)
  show ?thesis
    using run pre empty_string_option_is_off
      [where opts = ?opts and hp = example_heap and state = "Some 1" and pending = False
         and h = typed_hook]
    by auto
qed

subsection \<open>Submissions and the first render\<close>

text \<open>
  C6. The effects of a render with \<open>pending = true\<close> clear \<open>processedStateRef\<close> and
  \<open>isRedirectingRef\<close> and change nothing else. Hence, from any hook state (one that
  has processed a result \<open>r1\<close>, with or without a redirect), a submission that
  resolves to \<open>r2\<close> ends with \<open>r2\<close> recorded as processed, having made after
  \<open>formAction\<close> exactly the calls the routine makes for \<open>r2\<close> in a hook that has
  processed nothing. Nothing is required of \<open>r2\<close>: it may hold the same contents as
  \<open>r1\<close>.
\<close>

theorem new_submission_restores_eligibility:
  "run_effects opts hp prev True (h :: ('v, 'cb) hook)
     = Inr (h\<lparr>processedStateRef := None, isRedirectingRef := False\<rparr>)
   \<and> (\<exists>h2 hf. submission opts hp prev d (Some r2) h = Inr h2
         \<and> reconcile_effect opts hp (Some r2) False (initial_hook dv) = Inr hf
         \<and> processedStateRef h2 = Some r2
         \<and> trace h2 = trace h @ [FormAction d] @ trace hf)"
proof -
  let ?c = "h\<lparr>processedStateRef := None, isRedirectingRef := False,
              trace := trace h @ [FormAction d]\<rparr>"
  let ?i = "initial_hook dv :: ('v, 'cb) hook"
  have "processedStateRef ?c \<noteq> Some r2" "\<not> isRedirectingRef ?c"
    "processedStateRef ?i \<noteq> Some r2" "\<not> isRedirectingRef ?i"
    by (simp_all add: initial_hook_def)
  from reconcile_fresh_delta [OF this, of opts hp]
  obtain h2 hf dl where "reconcile_effect opts hp (Some r2) False ?c = Inr h2"
    "reconcile_effect opts hp (Some r2) False ?i = Inr hf"
    "processedStateRef h2 = Some r2" "trace h2 = trace ?c @ dl" "trace hf = trace ?i @ dl"
    by blast
  then have "submission opts hp prev d (Some r2) h = Inr h2
         \<and> reconcile_effect opts hp (Some r2) False (initial_hook dv) = Inr hf
         \<and> processedStateRef h2 = Some r2
         \<and> trace h2 = trace h @ [FormAction d] @ trace hf"
    by (simp add: submission_eq initial_hook_def)
  then show ?thesis
    by (auto simp: run_effects_pending)
qed

theorem new_submission_restores_eligibility_witness:
  "(1::nat) \<noteq> 2 \<and> example_heap 1 = example_heap 2
   \<and> (\<exists>h1 h2. reconcile_effect example_options example_heap (Some 1) False typed_hook = Inr h1
        \<and> processedStateRef h1 = Some 1
        \<and> submission example_options example_heap (Some 1) ''Walk dog'' (Some 2) h1 = Inr h2
        \<and> processedStateRef h2 = Some 2
        \<and> trace h2 = [ToastSuccess ''Created'', FormReset, Call 10 1, FormAction ''Walk dog'',
                       ToastSuccess ''Created'', FormReset, Call 10 2])"
proof -
  obtain h1 where h1: "reconcile_effect example_options example_heap (Some 1) False typed_hook = Inr h1"
      "processedStateRef h1 = Some 1"
      "trace h1 = [ToastSuccess ''Created'', FormReset, Call 10 1]"
    by (simp add: reconcile_effect_def success_path_def form_reset_def emit_def
        typed_hook_def initial_hook_def example_heap_def example_options_def)
  have hf: "\<exists>hf. reconcile_effect example_options example_heap (Some 2) False
                    (initial_hook [] :: (string, nat) hook) = Inr hf
               \<and> trace hf = [ToastSuccess ''Created'', FormReset, Call 10 2]"
    by (simp add: reconcile_effect_def success_path_def form_reset_def emit_def
        initial_hook_def example_heap_def example_options_def)
  have eq: "example_heap 1 = example_heap 2"
    by (simp add: example_heap_def)
  show ?thesis
    using h1 hf eq new_submission_restores_eligibility
      [where opts = example_options and hp = example_heap and prev = "Some 1" and h = h1
         and d = "''Walk dog''" and ?r2.0 = 2 and dv = "[]"]
    by auto
qed

text \<open>
  C9. With \<open>initialState\<close> a result \<open>r\<close>, the effects of the first render process
  \<open>r\<close>: it is recorded in \<open>processedStateRef\<close>, and no \<open>formAction\<close> call has
  been made. The hook state reached is the one reached, without initial state, by a
  first submission that resolves to \<open>r\<close>, apart from the \<open>formAction\<close> call at the
  head of the trace.
\<close>

theorem initial_state_processed_on_mount:
  assumes "initialState opts = Some r"
  shows "\<exists>h1 h2 :: ('v, 'cb) hook. mount opts hp dv = Inr h1
      \<and> processedStateRef h1 = Some r
      \<and> (\<forall>d. FormAction d \<notin> set (trace h1))
      \<and> mount (opts\<lparr>initialState := None\<rparr>) hp dv = Inr (initial_hook dv)
      \<and> submission (opts\<lparr>initialState := None\<rparr>) hp None d (Some r) (initial_hook dv) = Inr h2
      \<and> h2 = h1\<lparr>trace := FormAction d # trace h1\<rparr>"
proof -
  let ?i = "initial_hook dv :: ('v, 'cb) hook"
  have fresh: "Some r \<noteq> processedStateRef ?i" "\<not> isRedirectingRef ?i"
    by (simp_all add: initial_hook_def)
  obtain h1 where h1: "reconcile_effect opts hp (Some r) False ?i = Inr h1"
    using reconcile_total by blast
  have m: "mount opts hp dv = Inr h1"
    using assms h1 by (simp add: mount_def run_effects_idle)
  have p: "processedStateRef h1 = Some r"
    using reconcile_pass_trace [of "Some r" r False ?i opts hp] fresh h1 by auto
  have nf: "FormAction d' \<notin> set (trace h1)" for d'
  proof (cases "redirect_target (redirectUrl opts)")
    case None
    with h1 fresh show ?thesis
      by (auto simp: reconcile_pass [where r = r] success_path_stay error_path_eq
          initial_hook_def split: option.splits if_splits)
  next
    case (Some u)
    with h1 fresh show ?thesis
      by (auto simp: reconcile_pass [where r = r] success_path_redirect error_path_eq
          initial_hook_def split: option.splits if_splits)
  qed
  have m0: "mount (opts\<lparr>initialState := None\<rparr>) hp dv = Inr ?i"
    by (simp add: mount_def run_effects_idle reconcile_guard)
  have c: "?i\<lparr>processedStateRef := None, isRedirectingRef := False,
              trace := trace ?i @ [FormAction d]\<rparr> = ?i\<lparr>trace := [FormAction d] @ trace ?i\<rparr>"
    by (simp add: initial_hook_def)
  have s: "submission (opts\<lparr>initialState := None\<rparr>) hp None d (Some r) ?i
             = Inr (h1\<lparr>trace := FormAction d # trace h1\<rparr>)"
    using reconcile_trace_frame [OF h1, of "[FormAction d]"]
    by (simp add: submission_eq reconcile_ignores_initialState c)
  from m p nf m0 s show ?thesis by blast
qed

theorem initial_state_processed_on_mount_witness:
  "initialState (example_options\<lparr>initialState := Some 1\<rparr>) = Some 1
   \<and> (\<exists>h1. mount (example_options\<lparr>initialState := Some 1\<rparr>) example_heap ''draft'' = Inr h1
        \<and> processedStateRef h1 = Some 1
        \<and> trace h1 = [ToastSuccess ''Created'', FormReset, Call 10 (1::nat)]
        \<and> submission example_options example_heap None ''Walk dog'' (Some 1)
              (initial_hook ''draft'')
            = Inr (h1\<lparr>trace := FormAction ''Walk dog'' # trace h1\<rparr>))"
proof -
  let ?opts = "example_options\<lparr>initialState := Some 1\<rparr>"
  have pre: "initialState ?opts = Some 1" by simp
  have same: "?opts\<lparr>initialState := None\<rparr> = example_options"
    by (simp add: example_options_def)
  have run: "\<exists>h1. mount ?opts example_heap ''draft'' = Inr (h1 :: (string, nat) hook)
      \<and> trace h1 = [ToastSuccess ''Created'', FormReset, Call 10 1]"
    by (simp add: mount_def run_effects_def pending_effect_def reconcile_effect_def
        success_path_def form_reset_def emit_def
        initial_hook_def example_heap_def example_options_def)
  show ?thesis
    using pre run initial_state_processed_on_mount
      [where opts = ?opts and r = 1 and hp = example_heap and dv = "''draft''"
         and d = "''Walk dog''", unfolded same]
    by auto
qed

end
